theory Spec2Isabelle
  imports Main "HOL-Library.Multiset"
begin

section \<open>Data model (types.ts)\<close>

text \<open>
  The \<^verbatim>\<open>Task\<close> interface. The string unions \<^verbatim>\<open>'low' | 'medium' | 'high'\<close> and
  \<^verbatim>\<open>'todo' | 'in-progress' | 'done'\<close> are datatypes; \<open>priority_str\<close> and \<open>status_str\<close>
  give back the strings the code compares with. The date strings are held already parsed:
  \<open>created_at\<close>, \<open>updated_at\<close> and \<open>due_date\<close> carry the value of
  \<^verbatim>\<open>new Date(s).getTime()\<close>, milliseconds since the epoch, and \<open>None\<close> is the
  \<^verbatim>\<open>null\<close> due date. Strings that do not parse to a date are outside the model.
\<close>

datatype priority = Low | Medium | High

datatype status = Todo | InProgress | Done

fun priority_str :: "priority \<Rightarrow> string" where
  "priority_str Low = ''low''"
| "priority_str Medium = ''medium''"
| "priority_str High = ''high''"

fun status_str :: "status \<Rightarrow> string" where
  "status_str Todo = ''todo''"
| "status_str InProgress = ''in-progress''"
| "status_str Done = ''done''"

record task =
  id_task :: string
  user_id :: string
  title :: string
  description :: string
  category :: string
  priority :: priority
  status :: status
  due_date :: "int option"
  completed :: bool
  created_at :: int
  updated_at :: int

text \<open>
  \<^verbatim>\<open>Partial<Task>\<close>: every field may be missing. A field that is present overrides,
  so a present \<^verbatim>\<open>due_date: null\<close> is \<open>Some None\<close>.
\<close>

record task_partial =
  p_id :: "string option"
  p_user_id :: "string option"
  p_title :: "string option"
  p_description :: "string option"
  p_category :: "string option"
  p_priority :: "priority option"
  p_status :: "status option"
  p_due_date :: "int option option"
  p_completed :: "bool option"
  p_created_at :: "int option"
  p_updated_at :: "int option"

datatype SortOption = S_newest | S_oldest | S_due_date | S_priority

datatype DueDateRange = R_all | R_overdue | R_today | R_week | R_month

record FilterOptions =
  f_category :: string
  f_priority :: string
  f_status :: string
  dueDateRange :: DueDateRange

text \<open>The object spread \<^verbatim>\<open>{ ...t, ...data }\<close>: the fields present in \<open>data\<close> win.\<close>

definition orElse :: "'a option \<Rightarrow> 'a \<Rightarrow> 'a" where
  "orElse v d = (case v of None \<Rightarrow> d | Some w \<Rightarrow> w)"

definition spread :: "task \<Rightarrow> task_partial \<Rightarrow> task" where
  "spread t d =
     \<lparr> id_task = orElse (p_id d) (id_task t),
       user_id = orElse (p_user_id d) (user_id t),
       title = orElse (p_title d) (title t),
       description = orElse (p_description d) (description t),
       category = orElse (p_category d) (category t),
       priority = orElse (p_priority d) (priority t),
       status = orElse (p_status d) (status t),
       due_date = orElse (p_due_date d) (due_date t),
       completed = orElse (p_completed d) (completed t),
       created_at = orElse (p_created_at d) (created_at t),
       updated_at = orElse (p_updated_at d) (updated_at t) \<rparr>"

section \<open>Component state (TaskManager.tsx)\<close>

text \<open>
  The \<^verbatim>\<open>useState\<close> cells the handlers read and write. \<open>tasks\<close> is the task cache,
  \<open>selectedTasks\<close> the selection set.
\<close>

record state =
  tasks :: "task list"
  selectedTasks :: "string set"
  editingTask :: "task option"
  showForm :: bool
  formSubmitError :: string

datatype error = RemoteError string | DuplicateTitle | TypeError

text \<open>
  The reply of a remote call, \<^verbatim>\<open>{ data, error }\<close>: \<open>Inl msg\<close> is a reply whose
  \<^verbatim>\<open>error\<close> is set (with that message), \<open>Inr d\<close> one with the data \<open>d\<close>.
\<close>

type_synonym 'a reply = "string + 'a"

definition duplicate_msg :: string where
  "duplicate_msg = ''A task with this title already exists. Please use a different title.''"

section \<open>Selection set\<close>

definition toggleTaskSelection :: "string \<Rightarrow> state \<Rightarrow> state" where
  "toggleTaskSelection taskId st =
     st\<lparr>selectedTasks :=
          (if taskId \<in> selectedTasks st then selectedTasks st - {taskId}
           else insert taskId (selectedTasks st))\<rparr>"

text \<open>
  \<^verbatim>\<open>selectAllTasks\<close> takes the visible list (\<^verbatim>\<open>filteredAndSortedTasks\<close>) and compares
  the size of the selection with its length.
\<close>

definition selectAllTasks :: "task list \<Rightarrow> state \<Rightarrow> state" where
  "selectAllTasks visible st =
     (if card (selectedTasks st) = length visible
      then st\<lparr>selectedTasks := {}\<rparr>
      else st\<lparr>selectedTasks := set (map id_task visible)\<rparr>)"

section \<open>Change-feed ingestion (subscribeToTasks)\<close>

text \<open>
  The payload of a change event is typed \<^verbatim>\<open>any\<close>. Each of \<^verbatim>\<open>payload.new\<close> and
  \<^verbatim>\<open>payload.old\<close> is one of: missing (\<^verbatim>\<open>null\<close> or \<^verbatim>\<open>undefined\<close>, falsy); the empty
  object \<^verbatim>\<open>{}\<close>; an object with the primary key only; a full row. The last three are
  truthy. \<open>rec_user_id\<close> and \<open>rec_id\<close> read \<^verbatim>\<open>.user_id\<close> and \<^verbatim>\<open>.id\<close> of a present
  record, \<open>None\<close> being \<^verbatim>\<open>undefined\<close>.
\<close>

datatype eventType = INSERT | UPDATE | DELETE

datatype change_record = Absent | No_columns | Key_only string | Row task

record payload =
  eventType :: eventType
  payload_new :: change_record
  payload_old :: change_record

fun rec_user_id :: "change_record \<Rightarrow> string option" where
  "rec_user_id (Row t) = Some (user_id t)"
| "rec_user_id r = None"

fun rec_id :: "change_record \<Rightarrow> string option" where
  "rec_id (Row t) = Some (id_task t)"
| "rec_id (Key_only i) = Some i"
| "rec_id r = None"

text \<open>
  The two guards at the head of the callback,
  \<^verbatim>\<open>if (payload.new && payload.new.user_id !== user.id) return;\<close> and the same for
  \<^verbatim>\<open>payload.old\<close>: a present record whose \<^verbatim>\<open>user_id\<close> is not the user's, or is
  undefined, ends the callback.
\<close>

definition foreign_event :: "string \<Rightarrow> payload \<Rightarrow> bool" where
  "foreign_event uid p =
     ((payload_new p \<noteq> Absent \<and> rec_user_id (payload_new p) \<noteq> Some uid) \<or>
      (payload_old p \<noteq> Absent \<and> rec_user_id (payload_old p) \<noteq> Some uid))"

text \<open>
  After the guards a record is missing or a full row of the user. The INSERT branch reads
  \<^verbatim>\<open>payload.new.user_id\<close> after \<^verbatim>\<open>setTasks\<close>, so a missing record is a
  \<^verbatim>\<open>TypeError\<close> there; the UPDATE and DELETE branches read \<^verbatim>\<open>payload.new.id\<close> and
  \<^verbatim>\<open>payload.old.id\<close> only inside the callback of \<^verbatim>\<open>map\<close> and \<^verbatim>\<open>filter\<close>, which
  an empty cache never calls.
\<close>

definition on_postgres_changes :: "string \<Rightarrow> payload \<Rightarrow> state \<Rightarrow> error + state" where
  "on_postgres_changes uid p st =
     (if foreign_event uid p then Inr st
      else case eventType p of
        INSERT \<Rightarrow>
          (case payload_new p of
             Row n \<Rightarrow>
               let hasTask = (\<exists>t \<in> set (tasks st). id_task t = id_task n)
               in Inr (if hasTask then st else st\<lparr>tasks := n # tasks st\<rparr>)
           | _ \<Rightarrow> Inl TypeError)
      | UPDATE \<Rightarrow>
          (case payload_new p of
             Row n \<Rightarrow>
               Inr (st\<lparr>tasks := map (\<lambda>t. if id_task t = id_task n then n else t) (tasks st)\<rparr>)
           | _ \<Rightarrow> if tasks st = [] then Inr st else Inl TypeError)
      | DELETE \<Rightarrow>
          (case payload_old p of
             Row od \<Rightarrow>
               Inr (st\<lparr>tasks := filter (\<lambda>t. id_task t \<noteq> id_task od) (tasks st)\<rparr>)
           | _ \<Rightarrow> if tasks st = [] then Inr st else Inl TypeError))"

text \<open>
  The payloads the realtime client hands to the callback. The client is a library outside
  this repository; these are the shapes it documents: an INSERT carries the new row and
  \<^verbatim>\<open>old: {}\<close>; a DELETE carries \<^verbatim>\<open>new: {}\<close> and the old record; an UPDATE carries the
  new row and the old record. The old record has the primary key only, or every column
  when the table's replica identity is full.
\<close>

definition insert_event :: "task \<Rightarrow> payload" where
  "insert_event n = \<lparr> eventType = INSERT, payload_new = Row n, payload_old = No_columns \<rparr>"

definition update_event :: "task \<Rightarrow> change_record \<Rightarrow> payload" where
  "update_event n od = \<lparr> eventType = UPDATE, payload_new = Row n, payload_old = od \<rparr>"

definition delete_event :: "change_record \<Rightarrow> payload" where
  "delete_event od = \<lparr> eventType = DELETE, payload_new = No_columns, payload_old = od \<rparr>"

section \<open>Mutation handlers\<close>

text \<open>
  Each handler is one function of the state at the call and of the replies of the remote
  store, which are parameters. A handler that awaits a reply is modelled with no other
  event between its steps, so the \<^verbatim>\<open>current\<close> of each \<^verbatim>\<open>setTasks\<close> updater is the state
  the previous step left. The result is the error the handler throws to its caller
  (\<open>None\<close> when it returns normally, also after an error it only logs) and the new state.
\<close>

text \<open>
  The duplicate-title query
  \<^verbatim>\<open>select('id').eq('user_id', uid).eq('title', data.title).limit(1)\<close>
  evaluated on the rows of the remote table.
\<close>

definition select_same_title :: "task list \<Rightarrow> string \<Rightarrow> string option \<Rightarrow> string list" where
  "select_same_title rows uid ttl =
     take 1 (map id_task (filter (\<lambda>t. user_id t = uid \<and> Some (title t) = ttl) rows))"

text \<open>\<^verbatim>\<open>error.message || fallback\<close>\<close>

definition message_or :: "string \<Rightarrow> string \<Rightarrow> string" where
  "message_or msg fallback = (if msg = [] then fallback else msg)"

text \<open>The \<^verbatim>\<open>catch\<close> blocks write the form error only when the one they closed over is empty.\<close>

definition set_error_if_unset :: "state \<Rightarrow> string \<Rightarrow> state \<Rightarrow> state" where
  "set_error_if_unset closure msg st =
     (if formSubmitError closure = [] then st\<lparr>formSubmitError := msg\<rparr> else st)"

text \<open>The row sent to the remote insert: \<^verbatim>\<open>{ ...data, user_id, status: data.status || 'todo' }\<close>.\<close>

definition insert_row :: "string \<Rightarrow> task_partial \<Rightarrow> task_partial" where
  "insert_row uid d = d\<lparr>p_user_id := Some uid, p_status := Some (orElse (p_status d) Todo)\<rparr>"

definition handleCreateTask ::
  "string \<Rightarrow> string list reply \<Rightarrow> (task_partial \<Rightarrow> task list reply) \<Rightarrow> task_partial \<Rightarrow> state
     \<Rightarrow> error option \<times> state" where
  "handleCreateTask uid existingTasks remote_insert d st =
     (case existingTasks of
        Inl msg \<Rightarrow>
          (Some (RemoteError msg),
           set_error_if_unset st (message_or msg ''Error creating task. Please try again.'') st)
      | Inr ids \<Rightarrow>
          if length ids > 0
          then (Some DuplicateTitle,
                set_error_if_unset st duplicate_msg (st\<lparr>formSubmitError := duplicate_msg\<rparr>))
          else
            let st1 = st\<lparr>showForm := False\<rparr> in
            (case remote_insert (insert_row uid d) of
               Inl msg \<Rightarrow>
                 (Some (RemoteError msg),
                  set_error_if_unset st (message_or msg ''Error creating task. Please try again.'') st1)
             | Inr insertedData \<Rightarrow>
                 (case insertedData of
                    [] \<Rightarrow> (None, st1)
                  | newTask # _ \<Rightarrow>
                      (None, st1\<lparr>tasks := newTask # tasks st1, formSubmitError := []\<rparr>))))"

definition handleUpdateTask ::
  "string list reply \<Rightarrow> unit reply \<Rightarrow> task_partial \<Rightarrow> state \<Rightarrow> error option \<times> state" where
  "handleUpdateTask existingTasks remote_update d st =
     (case editingTask st of
        None \<Rightarrow> (None, st)
      | Some et \<Rightarrow>
          let titleChanges =
                (case p_title d of None \<Rightarrow> False | Some ttl \<Rightarrow> ttl \<noteq> [] \<and> ttl \<noteq> title et);
              restore = (\<lambda>s. s\<lparr>tasks := map (\<lambda>t. if id_task t = id_task et then et else t) (tasks s)\<rparr>);
              proceed =
                (let optimisticUpdate = spread et d;
                     st1 = st\<lparr>tasks := map (\<lambda>t. if id_task t = id_task et then optimisticUpdate else t)
                                          (tasks st),
                              editingTask := None, showForm := False\<rparr>
                 in case remote_update of
                      Inl msg \<Rightarrow>
                        (None,
                         set_error_if_unset st (message_or msg ''Error updating task. Please try again.'')
                           (restore (restore st1)))
                    | Inr _ \<Rightarrow> (None, st1\<lparr>formSubmitError := []\<rparr>))
          in if titleChanges
             then (case existingTasks of
                     Inl msg \<Rightarrow>
                       (Some (RemoteError msg),
                        set_error_if_unset st
                          (message_or msg ''Error checking for duplicate title. Please try again.'') st)
                   | Inr ids \<Rightarrow>
                       if length ids > 0
                       then (Some DuplicateTitle,
                             set_error_if_unset st duplicate_msg (st\<lparr>formSubmitError := duplicate_msg\<rparr>))
                       else proceed)
             else proceed)"

text \<open>
  \<^verbatim>\<open>handleDeleteTask\<close> in its two parts. \<open>handleDeleteTask_begin\<close> is the part that
  runs at the click, up to the \<^verbatim>\<open>await\<close>. \<open>handleDeleteTask_settle\<close> is the part that
  runs when the reply arrives: \<open>closure\<close> is the state of the render the handler was
  created in, from which it took \<^verbatim>\<open>tasks\<close> (for \<^verbatim>\<open>taskToDelete\<close>) and
  \<^verbatim>\<open>selectedTasks\<close>; \<open>st\<close> is the state at the reply. \<^verbatim>\<open>setTasks\<close> is given an
  updater and acts on \<open>st\<close>; \<^verbatim>\<open>setSelectedTasks\<close> is given a value made from the
  closure's set. \<open>confirmed\<close> is the answer of the \<^verbatim>\<open>confirm\<close> dialog.
\<close>

definition handleDeleteTask_begin :: "string \<Rightarrow> state \<Rightarrow> state" where
  "handleDeleteTask_begin i st = st\<lparr>tasks := filter (\<lambda>t. id_task t \<noteq> i) (tasks st)\<rparr>"

definition handleDeleteTask_settle :: "unit reply \<Rightarrow> string \<Rightarrow> state \<Rightarrow> state \<Rightarrow> state" where
  "handleDeleteTask_settle remote_delete i closure st =
     (let taskToDelete = find (\<lambda>t. id_task t = i) (tasks closure)
      in case remote_delete of
           Inl msg \<Rightarrow>
             (case taskToDelete of
                None \<Rightarrow> st
              | Some td \<Rightarrow> st\<lparr>tasks := tasks st @ [td]\<rparr>)
         | Inr _ \<Rightarrow>
             if i \<in> selectedTasks closure
             then st\<lparr>selectedTasks := selectedTasks closure - {i}\<rparr>
             else st)"

text \<open>The handler with no other event between the click and the reply.\<close>

definition handleDeleteTask :: "bool \<Rightarrow> unit reply \<Rightarrow> string \<Rightarrow> state \<Rightarrow> state" where
  "handleDeleteTask confirmed remote_delete i st =
     (if \<not> confirmed then st
      else handleDeleteTask_settle remote_delete i st (handleDeleteTask_begin i st))"

definition handleBulkDelete :: "bool \<Rightarrow> unit reply \<Rightarrow> state \<Rightarrow> state" where
  "handleBulkDelete confirmed remote_delete st =
     (if card (selectedTasks st) = 0 then st
      else if \<not> confirmed then st
      else
        let tasksToDelete = filter (\<lambda>t. id_task t \<in> selectedTasks st) (tasks st);
            st1 = st\<lparr>tasks := filter (\<lambda>t. id_task t \<notin> selectedTasks st) (tasks st)\<rparr>
        in case remote_delete of
             Inl msg \<Rightarrow> st1\<lparr>tasks := tasks st1 @ tasksToDelete\<rparr>
           | Inr _ \<Rightarrow> st1\<lparr>selectedTasks := {}\<rparr>)"

definition handleBulkMarkAsCompleted :: "unit reply \<Rightarrow> state \<Rightarrow> state" where
  "handleBulkMarkAsCompleted remote_update st =
     (if card (selectedTasks st) = 0 then st
      else
        let tasksToUpdate = filter (\<lambda>t. id_task t \<in> selectedTasks st) (tasks st);
            st1 = st\<lparr>tasks := map (\<lambda>t. if id_task t \<in> selectedTasks st
                                         then t\<lparr>completed := True, status := Done\<rparr> else t)
                                   (tasks st)\<rparr>
        in case remote_update of
             Inl msg \<Rightarrow>
               st1\<lparr>tasks := map (\<lambda>t. case find (\<lambda>u. id_task u = id_task t) tasksToUpdate of
                                        Some originalTask \<Rightarrow> originalTask
                                      | None \<Rightarrow> t)
                                 (tasks st1)\<rparr>
           | Inr _ \<Rightarrow> st1\<lparr>selectedTasks := {}\<rparr>)"

definition handleToggleComplete :: "unit reply \<Rightarrow> string \<Rightarrow> bool \<Rightarrow> state \<Rightarrow> state" where
  "handleToggleComplete remote_update i c st =
     (case find (\<lambda>t. id_task t = i) (tasks st) of
        None \<Rightarrow> st
      | Some tk \<Rightarrow>
          let st1 = st\<lparr>tasks := map (\<lambda>t. if id_task t = i then t\<lparr>completed := c\<rparr> else t) (tasks st)\<rparr>
          in case remote_update of
               Inl msg \<Rightarrow>
                 st1\<lparr>tasks := map (\<lambda>t. if id_task t = i then t\<lparr>completed := completed tk\<rparr> else t)
                                   (tasks st1)\<rparr>
             | Inr _ \<Rightarrow> st1)"

definition handleStatusChange :: "unit reply \<Rightarrow> string \<Rightarrow> status \<Rightarrow> state \<Rightarrow> state" where
  "handleStatusChange remote_update i s st =
     (case find (\<lambda>t. id_task t = i) (tasks st) of
        None \<Rightarrow> st
      | Some tk \<Rightarrow>
          let st1 = st\<lparr>tasks := map (\<lambda>t. if id_task t = i then t\<lparr>status := s\<rparr> else t) (tasks st)\<rparr>
          in case remote_update of
               Inl msg \<Rightarrow>
                 st1\<lparr>tasks := map (\<lambda>t. if id_task t = i then t\<lparr>status := status tk\<rparr> else t)
                                   (tasks st1)\<rparr>
             | Inr _ \<Rightarrow> st1)"

text \<open>
  The status button of \<^verbatim>\<open>TaskCard\<close>:
  \<^verbatim>\<open>statuses[(statuses.indexOf(task.status) + 1) % statuses.length]\<close>.
\<close>

definition statuses :: "status list" where
  "statuses = [Todo, InProgress, Done]"

fun indexOf :: "'a list \<Rightarrow> 'a \<Rightarrow> int" where
  "indexOf [] x = -1"
| "indexOf (y # ys) x =
     (if y = x then 0 else (let r = indexOf ys x in if r < 0 then -1 else r + 1))"

definition nextStatus :: "status \<Rightarrow> status" where
  "nextStatus s = statuses ! nat ((indexOf statuses s + 1) mod int (length statuses))"

definition onStatusClick :: "unit reply \<Rightarrow> task \<Rightarrow> state \<Rightarrow> state" where
  "onStatusClick remote_update t st = handleStatusChange remote_update (id_task t) (nextStatus (status t)) st"

section \<open>Filter and sort projection (filteredAndSortedTasks)\<close>

subsection \<open>Local dates\<close>

text \<open>
  A \<^verbatim>\<open>Date\<close> is its time value, milliseconds since the epoch. Local time is UTC plus a
  fixed offset \<open>off\<close> in milliseconds (no daylight-saving change inside the ranges
  compared). \<open>setHours0\<close> is \<^verbatim>\<open>d.setHours(0, 0, 0, 0)\<close>, the start of the local day;
  \<open>addDays\<close> is \<^verbatim>\<open>d.setDate(d.getDate() + n)\<close>; \<open>addMonth\<close> is
  \<^verbatim>\<open>d.setMonth(d.getMonth() + 1)\<close>, which keeps the day of the month and lets it run over
  into the month after when the next month is shorter.
\<close>

definition msPerDay :: int where
  "msPerDay = 86400000"

definition setHours0 :: "int \<Rightarrow> int \<Rightarrow> int" where
  "setHours0 off t = t - (t + off) mod msPerDay"

definition addDays :: "int \<Rightarrow> int \<Rightarrow> int" where
  "addDays n t = t + n * msPerDay"

text \<open>Day number (days since 1970-01-01) of a proleptic Gregorian date, month 1 to 12.\<close>

definition days_from_civil :: "int \<Rightarrow> int \<Rightarrow> int \<Rightarrow> int" where
  "days_from_civil y m d =
     (let y1 = (if m \<le> 2 then y - 1 else y);
          era = y1 div 400;
          yoe = y1 mod 400;
          doy = (153 * (if m > 2 then m - 3 else m + 9) + 2) div 5 + d - 1;
          doe = yoe * 365 + yoe div 4 - yoe div 100 + doy
      in era * 146097 + doe - 719468)"

definition civil_from_days :: "int \<Rightarrow> int \<times> int \<times> int" where
  "civil_from_days z =
     (let z1 = z + 719468;
          era = z1 div 146097;
          doe = z1 mod 146097;
          yoe = (doe - doe div 1460 + doe div 36524 - doe div 146096) div 365;
          doy = doe - (365 * yoe + yoe div 4 - yoe div 100);
          mp = (5 * doy + 2) div 153;
          d = doy - (153 * mp + 2) div 5 + 1;
          m = (if mp < 10 then mp + 3 else mp - 9);
          y = yoe + era * 400
      in (if m \<le> 2 then y + 1 else y, m, d))"

definition addMonth :: "int \<Rightarrow> int \<Rightarrow> int" where
  "addMonth off t =
     (let loc = t + off;
          tod = loc mod msPerDay;
          (y, m, d) = civil_from_days (loc div msPerDay);
          (y1, m1) = (if m = 12 then (y + 1, 1) else (y, m + 1));
          day1 = days_from_civil y1 m1 1 + (d - 1)
      in day1 * msPerDay + tod - off)"

subsection \<open>Filters\<close>

text \<open>The predicate of the due-date filter; \<open>now\<close> is the time value of \<^verbatim>\<open>new Date()\<close>.\<close>

definition dueDateFilter :: "int \<Rightarrow> int \<Rightarrow> DueDateRange \<Rightarrow> task \<Rightarrow> bool" where
  "dueDateFilter off now r t =
     (let today = setHours0 off now
      in case due_date t of
           None \<Rightarrow> False
         | Some dd \<Rightarrow>
             let dueDate = setHours0 off dd
             in (case r of
                   R_overdue \<Rightarrow> dueDate < today \<and> \<not> completed t
                 | R_today \<Rightarrow> dueDate = today
                 | R_week \<Rightarrow> (let weekFromNow = addDays 7 today
                              in dueDate \<ge> today \<and> dueDate \<le> weekFromNow)
                 | R_month \<Rightarrow> (let monthFromNow = addMonth off today
                               in dueDate \<ge> today \<and> dueDate \<le> monthFromNow)
                 | R_all \<Rightarrow> True))"

definition filterTasks :: "int \<Rightarrow> int \<Rightarrow> FilterOptions \<Rightarrow> task list \<Rightarrow> task list" where
  "filterTasks off now f ts =
     (let filtered1 = (if f_category f \<noteq> ''all''
                       then filter (\<lambda>t. category t = f_category f) ts else ts);
          filtered2 = (if f_priority f \<noteq> ''all''
                       then filter (\<lambda>t. priority_str (priority t) = f_priority f) filtered1
                       else filtered1);
          filtered3 = (if f_status f \<noteq> ''all''
                       then filter (\<lambda>t. status_str (status t) = f_status f) filtered2
                       else filtered2)
      in if dueDateRange f \<noteq> R_all
         then filter (dueDateFilter off now (dueDateRange f)) filtered3
         else filtered3)"

subsection \<open>Sorting\<close>

fun priorityOrder :: "priority \<Rightarrow> int" where
  "priorityOrder High = 0"
| "priorityOrder Medium = 1"
| "priorityOrder Low = 2"

text \<open>The comparator passed to \<^verbatim>\<open>filtered.sort\<close>.\<close>

definition compareTasks :: "SortOption \<Rightarrow> task \<Rightarrow> task \<Rightarrow> int" where
  "compareTasks sortBy a b =
     (if completed a \<and> \<not> completed b then 1
      else if \<not> completed a \<and> completed b then - 1
      else case sortBy of
             S_newest \<Rightarrow> created_at b - created_at a
           | S_oldest \<Rightarrow> created_at a - created_at b
           | S_due_date \<Rightarrow>
               (case due_date a of
                  None \<Rightarrow> (case due_date b of None \<Rightarrow> 0 | Some y \<Rightarrow> 1)
                | Some x \<Rightarrow> (case due_date b of None \<Rightarrow> - 1 | Some y \<Rightarrow> x - y))
           | S_priority \<Rightarrow> priorityOrder (priority a) - priorityOrder (priority b))"

text \<open>
  \<^verbatim>\<open>Array.prototype.sort\<close> with a comparator is the stable sort of the language standard:
  elements the comparator does not separate keep their order. It is modelled as a stable
  insertion sort, an element going before the first one it does not compare greater than.
\<close>

fun insert_sorted :: "('a \<Rightarrow> 'a \<Rightarrow> int) \<Rightarrow> 'a \<Rightarrow> 'a list \<Rightarrow> 'a list" where
  "insert_sorted cmp x [] = [x]"
| "insert_sorted cmp x (y # ys) =
     (if cmp x y \<le> 0 then x # y # ys else y # insert_sorted cmp x ys)"

fun array_sort :: "('a \<Rightarrow> 'a \<Rightarrow> int) \<Rightarrow> 'a list \<Rightarrow> 'a list" where
  "array_sort cmp [] = []"
| "array_sort cmp (x # xs) = insert_sorted cmp x (array_sort cmp xs)"

definition filteredAndSortedTasks ::
  "int \<Rightarrow> int \<Rightarrow> FilterOptions \<Rightarrow> SortOption \<Rightarrow> task list \<Rightarrow> task list" where
  "filteredAndSortedTasks off now f sortBy ts =
     array_sort (compareTasks sortBy) (filterTasks off now f ts)"

section \<open>The form and sequences of operations\<close>

text \<open>
  What \<^verbatim>\<open>TaskForm\<close> passes to \<^verbatim>\<open>onSubmit\<close>, that is to \<^verbatim>\<open>handleCreateTask\<close> or
  \<^verbatim>\<open>handleUpdateTask\<close>: the six fields of the form and nothing else.
\<close>

record form =
  fm_title :: string
  fm_description :: string
  fm_category :: string
  fm_priority :: priority
  fm_status :: status
  fm_dueDate :: "int option"

definition submit_data :: "form \<Rightarrow> task_partial" where
  "submit_data fm =
     \<lparr> p_id = None, p_user_id = None, p_title = Some (fm_title fm),
       p_description = Some (fm_description fm), p_category = Some (fm_category fm),
       p_priority = Some (fm_priority fm), p_status = Some (fm_status fm),
       p_due_date = Some (fm_dueDate fm), p_completed = None,
       p_created_at = None, p_updated_at = None \<rparr>"

text \<open>
  The operations on the component state, each a whole handler call with its remote
  replies. \<open>OpEdit\<close> is the edit button of a card (\<^verbatim>\<open>setEditingTask(task)\<close>,
  \<^verbatim>\<open>setShowForm(true)\<close>); \<open>OpSelectAll\<close> takes the time, the offset and
  the filter and sort settings the visible list is computed from. A change event whose
  callback throws leaves the state as it was (see \<open>admissible\<close> for the one event of
  which this is not so).
\<close>

datatype cache_op =
    OpCreate "string list reply" "task_partial \<Rightarrow> task list reply" form
  | OpFeed payload
  | OpEdit task
  | OpUpdate "string list reply" "unit reply" form
  | OpDelete bool "unit reply" string
  | OpBulkDelete bool "unit reply"
  | OpBulkComplete "unit reply"
  | OpToggleComplete "unit reply" string bool
  | OpStatusChange "unit reply" string status
  | OpSelect string
  | OpSelectAll int int FilterOptions SortOption

fun apply_op :: "string \<Rightarrow> cache_op \<Rightarrow> state \<Rightarrow> state" where
  "apply_op uid (OpCreate existing remote_insert fm) st =
     snd (handleCreateTask uid existing remote_insert (submit_data fm) st)"
| "apply_op uid (OpFeed p) st =
     (case on_postgres_changes uid p st of Inl e \<Rightarrow> st | Inr st1 \<Rightarrow> st1)"
| "apply_op uid (OpEdit t) st = st\<lparr>editingTask := Some t, showForm := True\<rparr>"
| "apply_op uid (OpUpdate existing remote_update fm) st =
     snd (handleUpdateTask existing remote_update (submit_data fm) st)"
| "apply_op uid (OpDelete confirmed remote_delete i) st = handleDeleteTask confirmed remote_delete i st"
| "apply_op uid (OpBulkDelete confirmed remote_delete) st = handleBulkDelete confirmed remote_delete st"
| "apply_op uid (OpBulkComplete remote_update) st = handleBulkMarkAsCompleted remote_update st"
| "apply_op uid (OpToggleComplete remote_update i c) st = handleToggleComplete remote_update i c st"
| "apply_op uid (OpStatusChange remote_update i s) st = handleStatusChange remote_update i s st"
| "apply_op uid (OpSelect i) st = toggleTaskSelection i st"
| "apply_op uid (OpSelectAll off now f sortBy) st =
     selectAllTasks (filteredAndSortedTasks off now f sortBy (tasks st)) st"

fun run_ops :: "string \<Rightarrow> cache_op list \<Rightarrow> state \<Rightarrow> state" where
  "run_ops uid [] st = st"
| "run_ops uid (op # ops) st = run_ops uid ops (apply_op uid op st)"

text \<open>
  Two facts about the surroundings, as a predicate on a sequence of operations. The
  remote store gives every row it creates an id of its own
  (\<^verbatim>\<open>id uuid PRIMARY KEY DEFAULT gen_random_uuid()\<close>): wherever a create puts the
  returned row into the cache, no cached task has that row's id. And an insert event
  has its new record: without it the callback has asked for a cache update that puts a
  missing record into the cache before it throws, a state this model does not hold.
\<close>

fun created_row :: "string \<Rightarrow> cache_op \<Rightarrow> task option" where
  "created_row uid (OpCreate existing remote_insert fm) =
     (case existing of
        Inl msg \<Rightarrow> None
      | Inr ids \<Rightarrow>
          if length ids > 0 then None
          else (case remote_insert (insert_row uid (submit_data fm)) of
                  Inl msg \<Rightarrow> None
                | Inr [] \<Rightarrow> None
                | Inr (newTask # others) \<Rightarrow> Some newTask))"
| "created_row uid op = None"

fun op_admissible :: "string \<Rightarrow> cache_op \<Rightarrow> state \<Rightarrow> bool" where
  "op_admissible uid (OpFeed p) st = (eventType p \<noteq> INSERT \<or> payload_new p \<noteq> Absent)"
| "op_admissible uid op st =
     (case created_row uid op of
        None \<Rightarrow> True
      | Some newTask \<Rightarrow> id_task newTask \<notin> id_task ` set (tasks st))"

fun admissible :: "string \<Rightarrow> cache_op list \<Rightarrow> state \<Rightarrow> bool" where
  "admissible uid [] st = True"
| "admissible uid (op # ops) st =
     (op_admissible uid op st \<and> admissible uid ops (apply_op uid op st))"

section \<open>Example data\<close>

definition mk_task :: "string \<Rightarrow> string \<Rightarrow> task" where
  "mk_task i ttl =
     \<lparr> id_task = i, user_id = ''u1'', title = ttl, description = [], category = ''Work'',
       priority = Medium, status = Todo, due_date = None, completed = False,
       created_at = 0, updated_at = 0 \<rparr>"

definition mk_state :: "task list \<Rightarrow> string set \<Rightarrow> state" where
  "mk_state ts sel =
     \<lparr> tasks = ts, selectedTasks = sel, editingTask = None, showForm = False,
       formSubmitError = [] \<rparr>"

definition no_data :: task_partial where
  "no_data =
     \<lparr> p_id = None, p_user_id = None, p_title = None, p_description = None, p_category = None,
       p_priority = None, p_status = None, p_due_date = None, p_completed = None,
       p_created_at = None, p_updated_at = None \<rparr>"

definition ex_state :: state where
  "ex_state =
     (mk_state [mk_task ''1'' ''A'', mk_task ''2'' ''B''] {''1''})
       \<lparr>editingTask := Some (mk_task ''1'' ''A'')\<rparr>"

definition ex_tasks :: "task list" where
  "ex_tasks =
     [(mk_task ''1'' ''A'')\<lparr>created_at := 10, priority := Low, completed := True,
                             category := ''Personal''\<rparr>,
      (mk_task ''2'' ''B'')\<lparr>created_at := 20, priority := Medium\<rparr>,
      (mk_task ''3'' ''C'')\<lparr>created_at := 30, priority := High, due_date := Some 86400000\<rparr>,
      (mk_task ''4'' ''D'')\<lparr>created_at := 40, priority := Low, due_date := Some 50\<rparr>]"

definition ex_filters :: FilterOptions where
  "ex_filters = \<lparr> f_category = ''all'', f_priority = ''all'', f_status = ''all'', dueDateRange = R_all \<rparr>"

definition ex_form :: form where
  "ex_form =
     \<lparr> fm_title = ''Buy milk'', fm_description = [], fm_category = ''Work'', fm_priority = Medium,
       fm_status = Todo, fm_dueDate = None \<rparr>"

definition ex_ops :: "cache_op list" where
  "ex_ops =
     [OpFeed (insert_event (mk_task ''7'' ''Buy milk'')),
      OpCreate (Inr []) (\<lambda>row. Inr [mk_task ''7'' ''Buy milk'']) ex_form,
      OpDelete True (Inl ''down'') ''1'',
      OpFeed (update_event (mk_task ''2'' ''Z'') (Row (mk_task ''2'' ''B'')))]"





section \<open>Selection set: toggle and select-all\<close>

text \<open>
  Claim C10. Toggling a task id adds it to the selection when it is absent and removes it
  when it is present; toggling the same id twice gives back the state it started from.
\<close>

theorem toggleTaskSelection_involution:
  "(taskId \<notin> selectedTasks st \<longrightarrow>
      selectedTasks (toggleTaskSelection taskId st) = insert taskId (selectedTasks st)) \<and>
   (taskId \<in> selectedTasks st \<longrightarrow>
      selectedTasks (toggleTaskSelection taskId st) = selectedTasks st - {taskId}) \<and>
   toggleTaskSelection taskId (toggleTaskSelection taskId st) = st"
  by (auto simp: toggleTaskSelection_def insert_absorb)

theorem toggleTaskSelection_involution_witness:
  "''b'' \<notin> selectedTasks (mk_state [] {''a''}) \<and>
   selectedTasks (toggleTaskSelection ''b'' (mk_state [] {''a''})) = {''b'', ''a''} \<and>
   ''a'' \<in> selectedTasks (mk_state [] {''a''}) \<and>
   selectedTasks (toggleTaskSelection ''a'' (mk_state [] {''a''})) = {} \<and>
   toggleTaskSelection ''a'' (toggleTaskSelection ''a'' (mk_state [] {''a''})) = mk_state [] {''a''}"
  using toggleTaskSelection_involution [of "''b''" "mk_state [] {''a''}"]
        toggleTaskSelection_involution [of "''a''" "mk_state [] {''a''}"]
  by (simp add: mk_state_def)

text \<open>
  Claim C9. Select-all should clear the selection when every visible id is selected and
  otherwise select exactly the visible ids. The code compares the size of the selection
  with the length of the visible list. With tasks 1 and 2 selected and only task 1
  visible, every visible id is selected, yet the selection becomes \<open>{1}\<close> instead of
  empty; with only the hidden task 2 selected, the visible task 1 is not selected, yet
  the selection is cleared instead of becoming \<open>{1}\<close>.
\<close>

theorem selectAllTasks_compares_sizes:
  "selectedTasks (selectAllTasks [mk_task ''1'' ''A'']
      (mk_state [mk_task ''1'' ''A'', mk_task ''2'' ''B''] {''1'', ''2''})) = {''1''} \<and>
   selectedTasks (selectAllTasks [mk_task ''1'' ''A'']
      (mk_state [mk_task ''1'' ''A'', mk_task ''2'' ''B''] {''2''})) = {}"
  by (simp add: selectAllTasks_def mk_state_def mk_task_def)

section \<open>Toggle-complete and status change\<close>

lemma nextStatus_cycle:
  "nextStatus Todo = InProgress" "nextStatus InProgress = Done" "nextStatus Done = Todo"
  by (simp_all add: nextStatus_def statuses_def)

lemma completed_self: "\<exists>b. (t::task) = t\<lparr>completed := b\<rparr>"
  by (rule exI [of _ "completed t"]) simp

lemma status_self: "\<exists>b. (t::task) = t\<lparr>status := b\<rparr>"
  by (rule exI [of _ "status t"]) simp

lemma find_None_nth:
  "find P xs = None \<Longrightarrow> k < length xs \<Longrightarrow> \<not> P (xs ! k)"
  by (auto simp: find_None_iff)

lemma toggle_frame:
  assumes "k < length (tasks st)"
  shows "(\<exists>b. tasks (handleToggleComplete r i c st) ! k = (tasks st ! k)\<lparr>completed := b\<rparr>) \<and>
         (id_task (tasks st ! k) \<noteq> i \<longrightarrow> tasks (handleToggleComplete r i c st) ! k = tasks st ! k) \<and>
         (id_task (tasks st ! k) = i \<longrightarrow> (\<exists>u. r = Inr u) \<longrightarrow>
            tasks (handleToggleComplete r i c st) ! k = (tasks st ! k)\<lparr>completed := c\<rparr>)"
proof (cases "find (\<lambda>t. id_task t = i) (tasks st)")
  case None
  then have "id_task (tasks st ! k) \<noteq> i" using assms by (rule find_None_nth)
  then show ?thesis using None by (simp add: handleToggleComplete_def completed_self)
next
  case (Some tk)
  then show ?thesis using assms
    by (cases r) (auto simp: handleToggleComplete_def Let_def completed_self)
qed

lemma status_frame:
  assumes "k < length (tasks st)"
  shows "(\<exists>b. tasks (handleStatusChange r i s st) ! k = (tasks st ! k)\<lparr>status := b\<rparr>) \<and>
         (id_task (tasks st ! k) \<noteq> i \<longrightarrow> tasks (handleStatusChange r i s st) ! k = tasks st ! k) \<and>
         (id_task (tasks st ! k) = i \<longrightarrow> (\<exists>u. r = Inr u) \<longrightarrow>
            tasks (handleStatusChange r i s st) ! k = (tasks st ! k)\<lparr>status := s\<rparr>)"
proof (cases "find (\<lambda>t. id_task t = i) (tasks st)")
  case None
  then have "id_task (tasks st ! k) \<noteq> i" using assms by (rule find_None_nth)
  then show ?thesis using None by (simp add: handleStatusChange_def status_self)
next
  case (Some tk)
  then show ?thesis using assms
    by (cases r) (auto simp: handleStatusChange_def Let_def status_self)
qed

lemma toggle_rest:
  "\<exists>ts. handleToggleComplete r i c st = st\<lparr>tasks := ts\<rparr> \<and> length ts = length (tasks st)"
proof (cases "find (\<lambda>t. id_task t = i) (tasks st)")
  case None
  have "st = st\<lparr>tasks := tasks st\<rparr>" by simp
  then show ?thesis using None unfolding handleToggleComplete_def by (metis option.simps(4))
next
  case (Some tk)
  then show ?thesis by (cases r) (auto simp: handleToggleComplete_def Let_def)
qed

lemma status_rest:
  "\<exists>ts. handleStatusChange r i s st = st\<lparr>tasks := ts\<rparr> \<and> length ts = length (tasks st)"
proof (cases "find (\<lambda>t. id_task t = i) (tasks st)")
  case None
  have "st = st\<lparr>tasks := tasks st\<rparr>" by simp
  then show ?thesis using None unfolding handleStatusChange_def by (metis option.simps(4))
next
  case (Some tk)
  then show ?thesis by (cases r) (auto simp: handleStatusChange_def Let_def)
qed

text \<open>
  Claim C6. Toggle-complete leaves every state cell but the cache alone, keeps the cache's
  length, and each cached task is afterwards the task it was with at most its
  \<open>completed\<close> field changed; a task with another id is unchanged, and on a successful
  remote update the task with the id carries the new value. The same holds for
  status-change and the \<open>status\<close> field. The status button cycles
  todo, in-progress, done, todo.
\<close>

theorem toggle_and_status_change_one_field:
  "(\<exists>ts. handleToggleComplete r i c st = st\<lparr>tasks := ts\<rparr> \<and> length ts = length (tasks st)) \<and>
   (\<forall>k < length (tasks st).
      (\<exists>b. tasks (handleToggleComplete r i c st) ! k = (tasks st ! k)\<lparr>completed := b\<rparr>) \<and>
      (id_task (tasks st ! k) \<noteq> i \<longrightarrow> tasks (handleToggleComplete r i c st) ! k = tasks st ! k) \<and>
      (id_task (tasks st ! k) = i \<longrightarrow> (\<exists>u. r = Inr u) \<longrightarrow>
         tasks (handleToggleComplete r i c st) ! k = (tasks st ! k)\<lparr>completed := c\<rparr>)) \<and>
   (\<exists>ts. handleStatusChange r i s st = st\<lparr>tasks := ts\<rparr> \<and> length ts = length (tasks st)) \<and>
   (\<forall>k < length (tasks st).
      (\<exists>b. tasks (handleStatusChange r i s st) ! k = (tasks st ! k)\<lparr>status := b\<rparr>) \<and>
      (id_task (tasks st ! k) \<noteq> i \<longrightarrow> tasks (handleStatusChange r i s st) ! k = tasks st ! k) \<and>
      (id_task (tasks st ! k) = i \<longrightarrow> (\<exists>u. r = Inr u) \<longrightarrow>
         tasks (handleStatusChange r i s st) ! k = (tasks st ! k)\<lparr>status := s\<rparr>)) \<and>
   onStatusClick r t st = handleStatusChange r (id_task t) (nextStatus (status t)) st \<and>
   nextStatus Todo = InProgress \<and> nextStatus InProgress = Done \<and> nextStatus Done = Todo"
  using toggle_rest [of r i c st] status_rest [of r i s st]
        toggle_frame [of _ st r i c] status_frame [of _ st r i s]
  by (simp add: nextStatus_cycle onStatusClick_def)

theorem toggle_and_status_change_one_field_witness:
  "(1::nat) < length (tasks (mk_state [mk_task ''1'' ''A'', mk_task ''2'' ''B''] {})) \<and>
   id_task (tasks (mk_state [mk_task ''1'' ''A'', mk_task ''2'' ''B''] {}) ! 0) = ''1'' \<and>
   id_task (tasks (mk_state [mk_task ''1'' ''A'', mk_task ''2'' ''B''] {}) ! 1) \<noteq> ''1'' \<and>
   tasks (handleToggleComplete (Inr ()) ''1'' True
            (mk_state [mk_task ''1'' ''A'', mk_task ''2'' ''B''] {}))
     = [(mk_task ''1'' ''A'')\<lparr>completed := True\<rparr>, mk_task ''2'' ''B''] \<and>
   tasks (handleStatusChange (Inr ()) ''1'' InProgress
            (mk_state [mk_task ''1'' ''A'', mk_task ''2'' ''B''] {}))
     = [(mk_task ''1'' ''A'')\<lparr>status := InProgress\<rparr>, mk_task ''2'' ''B'']"
  using toggle_and_status_change_one_field
          [of "Inr ()" "''1''" True "mk_state [mk_task ''1'' ''A'', mk_task ''2'' ''B''] {}" InProgress]
  by (simp add: mk_state_def mk_task_def handleToggleComplete_def handleStatusChange_def)

section \<open>Rollback on remote failure\<close>

text \<open>
  Claim C1. After a failed remote operation the cache should be the sequence it was
  before the mutation. The rollback of a single delete and of a bulk delete puts the
  removed records at the end of the cache: with tasks 1 and 2 cached, a delete of task 1
  that fails remotely leaves the cache as 2, 1, and so does a failed bulk delete of the
  selection \<open>{1}\<close>. The two tasks compare equal under every sort key, so the visible
  list, which was 1, 2, is 2, 1 afterwards. The rollbacks of toggle-complete and of bulk
  complete, on the same cache, give back 1, 2.
\<close>

theorem failed_delete_moves_task_to_end:
  "tasks (handleDeleteTask True (Inl ''down'') ''1''
            (mk_state [mk_task ''1'' ''A'', mk_task ''2'' ''B''] {}))
     = [mk_task ''2'' ''B'', mk_task ''1'' ''A''] \<and>
   tasks (handleBulkDelete True (Inl ''down'')
            (mk_state [mk_task ''1'' ''A'', mk_task ''2'' ''B''] {''1''}))
     = [mk_task ''2'' ''B'', mk_task ''1'' ''A''] \<and>
   map id_task (filteredAndSortedTasks 0 5 ex_filters S_priority
                  [mk_task ''1'' ''A'', mk_task ''2'' ''B'']) = [''1'', ''2''] \<and>
   map id_task (filteredAndSortedTasks 0 5 ex_filters S_priority
                  [mk_task ''2'' ''B'', mk_task ''1'' ''A'']) = [''2'', ''1''] \<and>
   tasks (handleToggleComplete (Inl ''down'') ''1'' True
            (mk_state [mk_task ''1'' ''A'', mk_task ''2'' ''B''] {}))
     = [mk_task ''1'' ''A'', mk_task ''2'' ''B''] \<and>
   tasks (handleBulkMarkAsCompleted (Inl ''down'')
            (mk_state [mk_task ''1'' ''A'', mk_task ''2'' ''B''] {''1''}))
     = [mk_task ''1'' ''A'', mk_task ''2'' ''B'']"
  by (simp add: handleDeleteTask_def handleDeleteTask_begin_def handleDeleteTask_settle_def
      handleBulkDelete_def handleToggleComplete_def handleBulkMarkAsCompleted_def
      filteredAndSortedTasks_def filterTasks_def compareTasks_def ex_filters_def
      mk_state_def mk_task_def)

section \<open>Change-feed ingestion\<close>





lemma passes_guards_iff:
  "\<not> foreign_event uid p \<longleftrightarrow>
     (payload_new p = Absent \<or> (\<exists>n. payload_new p = Row n \<and> user_id n = uid)) \<and>
     (payload_old p = Absent \<or> (\<exists>od. payload_old p = Row od \<and> user_id od = uid))"
  by (cases "payload_new p"; cases "payload_old p") (auto simp: foreign_event_def)




lemma delivered_events_dropped:
  "on_postgres_changes uid (insert_event n) st = Inr st"
  "on_postgres_changes uid (delete_event od) st = Inr st"
  "on_postgres_changes uid (update_event n (Key_only i)) st = Inr st"
  by (simp_all add: on_postgres_changes_def foreign_event_def insert_event_def delete_event_def
      update_event_def)




section \<open>Cache and selection invariants\<close>

lemma find_Some_mem: "find P xs = Some x \<Longrightarrow> x \<in> set xs \<and> P x"
  by (auto simp: find_Some_iff)

lemma ids_map_same:
  "(\<And>x. x \<in> set xs \<Longrightarrow> id_task (f x) = id_task x) \<Longrightarrow> map id_task (map f xs) = map id_task xs"
  by (induction xs) auto

lemma distinct_ids_filter:
  "distinct (map id_task ts) \<Longrightarrow> distinct (map id_task (filter P ts))"
  by (rule distinct_map_filter)

lemma distinct_ids_partition:
  assumes "distinct (map id_task ts)"
  shows "distinct (map id_task (filter (\<lambda>t. \<not> P t) ts @ filter P ts))"
proof -
  have "mset (map id_task (filter (\<lambda>t. \<not> P t) ts @ filter P ts)) = mset (map id_task ts)"
    by (induction ts) auto
  then show ?thesis using assms by (metis mset_eq_imp_distinct_iff)
qed

lemma feed_keeps_distinct:
  assumes "distinct (map id_task (tasks st))"
  shows "distinct (map id_task (tasks (apply_op uid (OpFeed p) st)))"
proof (cases "foreign_event uid p")
  case True
  then show ?thesis using assms by (simp add: on_postgres_changes_def)
next
  case False
  have upd: "map id_task (map (\<lambda>t. if id_task t = id_task n then n else t) (tasks st))
               = map id_task (tasks st)" for n
    by (rule ids_map_same) simp
  show ?thesis
    using False assms
    by (cases "eventType p"; cases "payload_new p"; cases "payload_old p")
       (auto simp: on_postgres_changes_def Let_def distinct_map_filter image_iff upd
             simp del: map_map)
qed

lemma create_keeps_distinct:
  assumes "distinct (map id_task (tasks st))"
    and "case created_row uid (OpCreate existing ins fm) of
           None \<Rightarrow> True | Some newTask \<Rightarrow> id_task newTask \<notin> id_task ` set (tasks st)"
  shows "distinct (map id_task (tasks (apply_op uid (OpCreate existing ins fm) st)))"
  using assms
  by (cases existing; cases "ins (insert_row uid (submit_data fm))")
     (auto simp: handleCreateTask_def set_error_if_unset_def Let_def split: list.splits if_splits)

lemma spread_form_id: "id_task (spread et (submit_data fm)) = id_task et"
  by (simp add: spread_def submit_data_def orElse_def)

lemma update_keeps_ids:
  "map id_task (tasks (apply_op uid (OpUpdate existing upd fm) st)) = map id_task (tasks st)"
proof (cases "editingTask st")
  case None
  then show ?thesis by (simp add: handleUpdateTask_def)
next
  case (Some et)
  let ?opt = "\<lambda>t. if id_task t = id_task et then spread et (submit_data fm) else t"
  let ?res = "\<lambda>t. if id_task t = id_task et then et else t"
  have a: "map id_task (map ?opt (tasks st)) = map id_task (tasks st)"
    by (rule ids_map_same) (simp add: spread_form_id)
  have b: "map id_task (map ?res ts) = map id_task ts" for ts
    by (rule ids_map_same) simp
  have c: "map id_task (map ?res (map ?res (map ?opt (tasks st)))) = map id_task (tasks st)"
    using a b by metis
  show ?thesis
    using Some a c
    by (cases existing; cases upd)
       (auto simp: handleUpdateTask_def set_error_if_unset_def Let_def simp del: map_map
             split: option.splits)
qed

lemma delete_keeps_distinct:
  assumes "distinct (map id_task (tasks st))"
  shows "distinct (map id_task (tasks (apply_op uid (OpDelete cf r i) st)))"
proof (cases "find (\<lambda>t. id_task t = i) (tasks st)")
  case None
  then show ?thesis using assms
    by (cases r) (auto simp: handleDeleteTask_def handleDeleteTask_begin_def
        handleDeleteTask_settle_def distinct_map_filter)
next
  case (Some td)
  then have "id_task td = i" by (auto dest: find_Some_mem)
  then show ?thesis using assms Some
    by (cases r) (auto simp: handleDeleteTask_def handleDeleteTask_begin_def
        handleDeleteTask_settle_def distinct_map_filter)
qed

lemma bulk_delete_keeps_distinct:
  assumes "distinct (map id_task (tasks st))"
  shows "distinct (map id_task (tasks (apply_op uid (OpBulkDelete cf r) st)))"
  using assms distinct_ids_partition [OF assms, of "\<lambda>t. id_task t \<in> selectedTasks st"]
  by (cases r) (auto simp: handleBulkDelete_def Let_def distinct_map_filter)

lemma bulk_complete_keeps_ids:
  "map id_task (tasks (apply_op uid (OpBulkComplete r) st)) = map id_task (tasks st)"
proof -
  let ?f = "\<lambda>t. if id_task t \<in> selectedTasks st then t\<lparr>completed := True, status := Done\<rparr> else t"
  let ?g = "\<lambda>t. case find (\<lambda>u. id_task u = id_task t)
                       (filter (\<lambda>t. id_task t \<in> selectedTasks st) (tasks st)) of
                   Some originalTask \<Rightarrow> originalTask | None \<Rightarrow> t"
  have a: "map id_task (map ?f (tasks st)) = map id_task (tasks st)"
    by (rule ids_map_same) simp
  have b: "map id_task (map ?g ts) = map id_task ts" for ts
    by (rule ids_map_same) (auto split: option.splits dest: find_Some_mem)
  have c: "map id_task (map ?g (map ?f (tasks st))) = map id_task (tasks st)"
    using a b by metis
  show ?thesis using a c
    by (cases r) (auto simp: handleBulkMarkAsCompleted_def Let_def simp del: map_map)
qed

lemma toggle_keeps_ids:
  "map id_task (tasks (apply_op uid (OpToggleComplete r i c) st)) = map id_task (tasks st)"
proof (cases "find (\<lambda>t. id_task t = i) (tasks st)")
  case None
  then show ?thesis by (simp add: handleToggleComplete_def)
next
  case (Some tk)
  have a: "map id_task (map (\<lambda>t. if id_task t = i then t\<lparr>completed := b\<rparr> else t) ts) = map id_task ts"
    for b ts
    by (rule ids_map_same) simp
  show ?thesis using Some a
    by (cases r) (auto simp: handleToggleComplete_def Let_def simp del: map_map)
qed

lemma status_keeps_ids:
  "map id_task (tasks (apply_op uid (OpStatusChange r i s) st)) = map id_task (tasks st)"
proof (cases "find (\<lambda>t. id_task t = i) (tasks st)")
  case None
  then show ?thesis by (simp add: handleStatusChange_def)
next
  case (Some tk)
  have a: "map id_task (map (\<lambda>t. if id_task t = i then t\<lparr>status := b\<rparr> else t) ts) = map id_task ts"
    for b ts
    by (rule ids_map_same) simp
  show ?thesis using Some a
    by (cases r) (auto simp: handleStatusChange_def Let_def simp del: map_map)
qed

lemma apply_op_keeps_distinct:
  assumes "distinct (map id_task (tasks st))" and "op_admissible uid op st"
  shows "distinct (map id_task (tasks (apply_op uid op st)))"
proof (cases op)
  case (OpCreate existing ins fm)
  then have "case created_row uid (OpCreate existing ins fm) of
               None \<Rightarrow> True | Some newTask \<Rightarrow> id_task newTask \<notin> id_task ` set (tasks st)"
    using assms(2) by simp
  then show ?thesis using OpCreate assms(1) create_keeps_distinct by blast
next
  case (OpFeed p)
  then show ?thesis using assms(1) feed_keeps_distinct by blast
next
  case (OpEdit t)
  then show ?thesis using assms(1) by simp
next
  case (OpUpdate existing upd fm)
  then show ?thesis using assms(1) update_keeps_ids [of uid existing upd fm st] by simp
next
  case (OpDelete cf r i)
  then show ?thesis using assms(1) delete_keeps_distinct by blast
next
  case (OpBulkDelete cf r)
  then show ?thesis using assms(1) bulk_delete_keeps_distinct by blast
next
  case (OpBulkComplete r)
  then show ?thesis using assms(1) bulk_complete_keeps_ids [of uid r st] by simp
next
  case (OpToggleComplete r i c)
  then show ?thesis using assms(1) toggle_keeps_ids [of uid r i c st] by simp
next
  case (OpStatusChange r i s)
  then show ?thesis using assms(1) status_keeps_ids [of uid r i s st] by simp
next
  case (OpSelect i)
  then show ?thesis using assms(1) by (simp add: toggleTaskSelection_def)
next
  case (OpSelectAll off now f sortBy)
  then show ?thesis using assms(1) by (simp add: selectAllTasks_def)
qed

lemma run_ops_keeps_distinct:
  "distinct (map id_task (tasks st)) \<Longrightarrow> admissible uid ops st \<Longrightarrow>
   distinct (map id_task (tasks (run_ops uid ops st)))"
proof (induction ops arbitrary: st)
  case Nil
  then show ?case by simp
next
  case (Cons op ops)
  from Cons.prems have "distinct (map id_task (tasks (apply_op uid op st)))"
    by (intro apply_op_keeps_distinct) simp_all
  moreover from Cons.prems have "admissible uid ops (apply_op uid op st)" by simp
  ultimately show ?case using Cons.IH by simp
qed

lemma echo_then_create:
  assumes "distinct (map id_task (tasks st))" "id_task n \<notin> id_task ` set (tasks st)"
  shows "apply_op uid (OpFeed (insert_event n)) st = st"
    and "tasks (run_ops uid [OpFeed (insert_event n), OpCreate (Inr []) (\<lambda>row. Inr [n]) fm] st)
           = n # tasks st"
    and "distinct (map id_task
           (tasks (run_ops uid [OpFeed (insert_event n), OpCreate (Inr []) (\<lambda>row. Inr [n]) fm] st)))"
proof -
  show a: "apply_op uid (OpFeed (insert_event n)) st = st"
    by (simp add: on_postgres_changes_def foreign_event_def insert_event_def)
  show b: "tasks (run_ops uid [OpFeed (insert_event n), OpCreate (Inr []) (\<lambda>row. Inr [n]) fm] st)
           = n # tasks st"
    using a by (simp add: handleCreateTask_def)
  show "distinct (map id_task
           (tasks (run_ops uid [OpFeed (insert_event n), OpCreate (Inr []) (\<lambda>row. Inr [n]) fm] st)))"
    unfolding b using assms by simp
qed

text \<open>
  Claim C2. Start from a cache with pairwise distinct ids and run any sequence of
  operations (creates, change events, edits, updates, single and bulk deletes with their
  rollbacks, bulk completes, toggles, status changes, selections) in which the remote
  store returns, for each created row, an id no cached task has, and every insert event
  has its new record. Then the ids of the cache are pairwise distinct at the end. In particular, when the insert
  event of a row arrives before the create handler caches the returned row: the event, as
  the client delivers it, leaves the state unchanged, the handler then puts the row at
  the head, and the ids are distinct.
\<close>

theorem cache_ids_stay_unique:
  assumes "distinct (map id_task (tasks st))" and "admissible uid ops st"
  shows
    "distinct (map id_task (tasks (run_ops uid ops st))) \<and>
     (id_task n \<notin> id_task ` set (tasks st) \<longrightarrow>
        apply_op uid (OpFeed (insert_event n)) st = st \<and>
        tasks (run_ops uid [OpFeed (insert_event n), OpCreate (Inr []) (\<lambda>row. Inr [n]) fm] st)
          = n # tasks st \<and>
        distinct (map id_task
          (tasks (run_ops uid [OpFeed (insert_event n), OpCreate (Inr []) (\<lambda>row. Inr [n]) fm] st))))"
proof -
  have "distinct (map id_task (tasks (run_ops uid ops st)))"
    using assms by (rule run_ops_keeps_distinct)
  moreover have "apply_op uid (OpFeed (insert_event n)) st = st \<and>
        tasks (run_ops uid [OpFeed (insert_event n), OpCreate (Inr []) (\<lambda>row. Inr [n]) fm] st)
          = n # tasks st \<and>
        distinct (map id_task
          (tasks (run_ops uid [OpFeed (insert_event n), OpCreate (Inr []) (\<lambda>row. Inr [n]) fm] st)))"
    if "id_task n \<notin> id_task ` set (tasks st)"
    using echo_then_create [OF assms(1) that] by blast
  ultimately show ?thesis by blast
qed

theorem cache_ids_stay_unique_witness:
  "distinct (map id_task (tasks ex_state)) \<and>
   admissible ''u1'' ex_ops ex_state \<and>
   id_task (mk_task ''7'' ''Buy milk'') \<notin> id_task ` set (tasks ex_state) \<and>
   map id_task (tasks (run_ops ''u1'' ex_ops ex_state)) = [''7'', ''2'', ''1''] \<and>
   distinct (map id_task (tasks (run_ops ''u1'' ex_ops ex_state))) \<and>
   tasks (run_ops ''u1''
            [OpFeed (insert_event (mk_task ''7'' ''Buy milk'')),
             OpCreate (Inr []) (\<lambda>row. Inr [mk_task ''7'' ''Buy milk'']) ex_form] ex_state)
     = mk_task ''7'' ''Buy milk'' # tasks ex_state"
proof -
  have d: "distinct (map id_task (tasks ex_state))"
    by code_simp
  have f: "admissible ''u1'' ex_ops ex_state"
    by code_simp
  have a: "id_task (mk_task ''7'' ''Buy milk'') \<notin> id_task ` set (tasks ex_state)"
    by code_simp
  have r: "map id_task (tasks (run_ops ''u1'' ex_ops ex_state)) = [''7'', ''2'', ''1'']"
    by code_simp
  show ?thesis
    using cache_ids_stay_unique [OF d f, of "mk_task ''7'' ''Buy milk''" ex_form] d f a r
    by blast
qed

text \<open>
  Claim C3. No selected id should be missing from the cache. \<^verbatim>\<open>handleDeleteTask\<close>
  removes the id from the selection only when the reply arrives, and from the selection
  of the render it was created in. With tasks 1 and 2 cached and selected, delete 1 and
  then delete 2 before the first reply: both succeed, the reply to the first writes the
  selection \<open>{2}\<close>, the reply to the second writes \<open>{1}\<close>, and the cache is empty
  with task 1 selected. Already after the first click the cache lacks task 1 while it is
  selected. A single delete whose reply arrives before any other event prunes the
  selection.
\<close>

theorem overlapping_deletes_leave_stale_selection:
  "handleDeleteTask_settle (Inr ()) ''2''
     (handleDeleteTask_begin ''1'' (mk_state [mk_task ''1'' ''A'', mk_task ''2'' ''B''] {''1'', ''2''}))
     (handleDeleteTask_settle (Inr ()) ''1''
        (mk_state [mk_task ''1'' ''A'', mk_task ''2'' ''B''] {''1'', ''2''})
        (handleDeleteTask_begin ''2''
           (handleDeleteTask_begin ''1''
              (mk_state [mk_task ''1'' ''A'', mk_task ''2'' ''B''] {''1'', ''2''}))))
     = mk_state [] {''1''} \<and>
   \<not> selectedTasks (mk_state [] {''1''}) \<subseteq> id_task ` set (tasks (mk_state [] {''1''})) \<and>
   handleDeleteTask_begin ''1'' (mk_state [mk_task ''1'' ''A'', mk_task ''2'' ''B''] {''1'', ''2''})
     = mk_state [mk_task ''2'' ''B''] {''1'', ''2''} \<and>
   handleDeleteTask True (Inr ()) ''1'' (mk_state [mk_task ''1'' ''A'', mk_task ''2'' ''B''] {''1'', ''2''})
     = mk_state [mk_task ''2'' ''B''] {''2''}"
  by (auto simp: handleDeleteTask_def handleDeleteTask_begin_def handleDeleteTask_settle_def
      mk_state_def mk_task_def)


section \<open>Create\<close>

lemma select_same_title_nonempty:
  "t \<in> set rows \<Longrightarrow> user_id t = uid \<Longrightarrow> ttl = Some (title t) \<Longrightarrow>
   select_same_title rows uid ttl \<noteq> []"
proof -
  assume "t \<in> set rows" "user_id t = uid" "ttl = Some (title t)"
  then have "t \<in> set (filter (\<lambda>t. user_id t = uid \<and> Some (title t) = ttl) rows)" by simp
  then have "filter (\<lambda>t. user_id t = uid \<and> Some (title t) = ttl) rows \<noteq> []" by fastforce
  then show ?thesis by (simp add: select_same_title_def)
qed

lemma create_duplicate:
  "ids \<noteq> [] \<Longrightarrow>
   handleCreateTask uid (Inr ids) ins d st = (Some DuplicateTitle, st\<lparr>formSubmitError := duplicate_msg\<rparr>)"
  by (simp add: handleCreateTask_def set_error_if_unset_def)

lemma create_error_cache:
  "fst (handleCreateTask uid existing ins d st) \<noteq> None \<Longrightarrow>
   tasks (snd (handleCreateTask uid existing ins d st)) = tasks st"
  by (cases existing; cases "ins (insert_row uid d)")
     (auto simp: handleCreateTask_def set_error_if_unset_def Let_def split: list.splits)

lemma create_adds_only_on_success:
  "tasks (snd (handleCreateTask uid existing ins d st)) \<noteq> tasks st \<Longrightarrow>
   \<exists>newTask more. existing = Inr [] \<and> ins (insert_row uid d) = Inr (newTask # more) \<and>
      handleCreateTask uid existing ins d st
        = (None, st\<lparr>showForm := False, tasks := newTask # tasks st, formSubmitError := []\<rparr>)"
  by (cases existing; cases "ins (insert_row uid d)")
     (auto simp: handleCreateTask_def set_error_if_unset_def Let_def split: list.splits if_splits)

lemma insert_row_status:
  "p_status (insert_row uid d) = Some (case p_status d of None \<Rightarrow> Todo | Some s \<Rightarrow> s) \<and>
   p_user_id (insert_row uid d) = Some uid"
  by (simp add: insert_row_def orElse_def)

text \<open>
  Claim C5. When the remote table holds a task of the same owner and title, the
  duplicate-title query is not empty, and create fails with the duplicate-title error,
  changing nothing but the form error. Whenever create fails, the cache is unchanged. The
  cache changes only when the precheck found nothing and the insert returned a row, and
  then by that row put at its head. The row sent to the remote insert carries the owner,
  and the status \<open>todo\<close> when the form gave none.
\<close>

theorem create_not_optimistic:
  "(t \<in> set rows \<and> user_id t = uid \<and> p_title d = Some (title t) \<longrightarrow>
      handleCreateTask uid (Inr (select_same_title rows uid (p_title d))) ins d st
        = (Some DuplicateTitle, st\<lparr>formSubmitError := duplicate_msg\<rparr>)) \<and>
   (fst (handleCreateTask uid existing ins d st) \<noteq> None \<longrightarrow>
      tasks (snd (handleCreateTask uid existing ins d st)) = tasks st) \<and>
   (tasks (snd (handleCreateTask uid existing ins d st)) \<noteq> tasks st \<longrightarrow>
      (\<exists>newTask more. existing = Inr [] \<and> ins (insert_row uid d) = Inr (newTask # more) \<and>
         handleCreateTask uid existing ins d st
           = (None, st\<lparr>showForm := False, tasks := newTask # tasks st, formSubmitError := []\<rparr>))) \<and>
   p_status (insert_row uid d) = Some (case p_status d of None \<Rightarrow> Todo | Some s \<Rightarrow> s) \<and>
   p_user_id (insert_row uid d) = Some uid"
proof -
  have dup: "handleCreateTask uid (Inr (select_same_title rows uid (p_title d))) ins d st
               = (Some DuplicateTitle, st\<lparr>formSubmitError := duplicate_msg\<rparr>)"
    if "t \<in> set rows" "user_id t = uid" "p_title d = Some (title t)"
    by (rule create_duplicate, rule select_same_title_nonempty) (rule that)+
  show ?thesis
    using dup create_error_cache [of uid existing ins d st]
      create_adds_only_on_success [of uid existing ins d st]
      insert_row_status [of uid d]
    by blast
qed


theorem create_not_optimistic_witness:
  "mk_task ''7'' ''Buy milk'' \<in> set [mk_task ''7'' ''Buy milk''] \<and>
   user_id (mk_task ''7'' ''Buy milk'') = ''u1'' \<and>
   p_title (no_data\<lparr>p_title := Some ''Buy milk''\<rparr>) = Some (title (mk_task ''7'' ''Buy milk'')) \<and>
   handleCreateTask ''u1''
       (Inr (select_same_title [mk_task ''7'' ''Buy milk''] ''u1'' (Some ''Buy milk'')))
       (\<lambda>row. Inr [mk_task ''8'' ''Buy milk''])
       (no_data\<lparr>p_title := Some ''Buy milk''\<rparr>)
       (mk_state [mk_task ''7'' ''Buy milk''] {})
     = (Some DuplicateTitle, (mk_state [mk_task ''7'' ''Buy milk''] {})\<lparr>formSubmitError := duplicate_msg\<rparr>) \<and>
   handleCreateTask ''u1'' (Inr (select_same_title [] ''u1'' (Some ''Buy milk'')))
       (\<lambda>row. Inr [(mk_task ''7'' ''Buy milk'')\<lparr>status := orElse (p_status row) Done\<rparr>])
       (no_data\<lparr>p_title := Some ''Buy milk''\<rparr>)
       (mk_state [] {})
     = (None, mk_state [mk_task ''7'' ''Buy milk''] {})"
  using create_not_optimistic [where t = "mk_task ''7'' ''Buy milk''"
          and rows = "[mk_task ''7'' ''Buy milk'']" and uid = "''u1''"
          and d = "no_data\<lparr>p_title := Some ''Buy milk''\<rparr>"
          and ins = "\<lambda>row. Inr [mk_task ''8'' ''Buy milk'']"
          and st = "mk_state [mk_task ''7'' ''Buy milk''] {}"
          and existing = "Inr (select_same_title [mk_task ''7'' ''Buy milk''] ''u1'' (Some ''Buy milk''))"]
    create_not_optimistic [where t = "mk_task ''7'' ''Buy milk''" and rows = "[]" and uid = "''u1''"
          and d = "no_data\<lparr>p_title := Some ''Buy milk''\<rparr>"
          and ins = "\<lambda>row. Inr [(mk_task ''7'' ''Buy milk'')\<lparr>status := orElse (p_status row) Done\<rparr>]"
          and st = "mk_state [] {}"
          and existing = "Inr (select_same_title [] ''u1'' (Some ''Buy milk''))"]
  by (simp add: handleCreateTask_def select_same_title_def set_error_if_unset_def insert_row_def
      orElse_def no_data_def mk_state_def mk_task_def duplicate_msg_def)

section \<open>Filter and sort projection\<close>

lemma mset_insert_sorted: "mset (insert_sorted cmp x ys) = add_mset x (mset ys)"
  by (induction ys) auto













lemma compareTasks_total:
  "compareTasks sortBy a b \<le> 0 \<or> compareTasks sortBy b a \<le> 0"
  by (auto simp: compareTasks_def split: SortOption.splits option.splits)

lemma compareTasks_trans:
  "compareTasks sortBy a b \<le> 0 \<Longrightarrow> compareTasks sortBy b c \<le> 0 \<Longrightarrow> compareTasks sortBy a c \<le> 0"
  by (cases sortBy; cases "due_date a"; cases "due_date b"; cases "due_date c")
     (auto simp: compareTasks_def split: if_splits)

lemma sorted_insert_sorted:
  assumes tot: "\<And>a b. cmp a b \<le> 0 \<or> cmp b a \<le> 0"
    and tr: "\<And>a b c. cmp a b \<le> 0 \<Longrightarrow> cmp b c \<le> 0 \<Longrightarrow> cmp a c \<le> 0"
  shows "sorted_wrt (\<lambda>a b. cmp a b \<le> 0) ys \<Longrightarrow> sorted_wrt (\<lambda>a b. cmp a b \<le> 0) (insert_sorted cmp x ys)"
proof (induction ys)
  case Nil
  then show ?case by simp
next
  case (Cons y ys)
  show ?case
  proof (cases "cmp x y \<le> 0")
    case True
    then have "\<forall>z \<in> set ys. cmp x z \<le> 0" using Cons.prems tr by auto
    then show ?thesis using True Cons.prems by simp
  next
    case False
    then have yx: "cmp y x \<le> 0" using tot by blast
    have "set (insert_sorted cmp x ys) = insert x (set ys)"
      using mset_insert_sorted [of cmp x ys] by (metis set_mset_mset set_mset_add_mset_insert)
    then show ?thesis using False yx Cons by simp
  qed
qed

lemma sorted_array_sort:
  assumes "\<And>a b. cmp a b \<le> 0 \<or> cmp b a \<le> 0"
    and "\<And>a b c. cmp a b \<le> 0 \<Longrightarrow> cmp b c \<le> 0 \<Longrightarrow> cmp a c \<le> 0"
  shows "sorted_wrt (\<lambda>a b. cmp a b \<le> 0) (array_sort cmp xs)"
proof (induction xs)
  case Nil
  then show ?case by simp
next
  case (Cons x xs)
  have "sorted_wrt (\<lambda>a b. cmp a b \<le> 0) (insert_sorted cmp x (array_sort cmp xs))"
    using assms(1) assms(2) Cons.IH by (rule sorted_insert_sorted)
  then show ?case by simp
qed

lemma sorted_view:
  "sorted_wrt (\<lambda>a b. compareTasks sortBy a b \<le> 0) (filteredAndSortedTasks off now f sortBy ts)"
  unfolding filteredAndSortedTasks_def
  by (rule sorted_array_sort) (rule compareTasks_total, rule compareTasks_trans)

lemma compareTasks_le_meaning:
  assumes "compareTasks sortBy a b \<le> 0"
  shows "(completed a \<longrightarrow> completed b) \<and>
     (completed a = completed b \<longrightarrow>
        (sortBy = S_newest \<longrightarrow> created_at a \<ge> created_at b) \<and>
        (sortBy = S_oldest \<longrightarrow> created_at a \<le> created_at b) \<and>
        (sortBy = S_due_date \<longrightarrow>
           (due_date a = None \<longrightarrow> due_date b = None) \<and>
           (\<forall>x y. due_date a = Some x \<longrightarrow> due_date b = Some y \<longrightarrow> x \<le> y)) \<and>
        (sortBy = S_priority \<longrightarrow>
           (priority b = High \<longrightarrow> priority a = High) \<and>
           (priority a = Low \<longrightarrow> priority b = Low)))"
  using assms
  by (cases sortBy; cases "due_date a"; cases "due_date b"; cases "priority a"; cases "priority b")
     (auto simp: compareTasks_def split: if_splits)

text \<open>
  Claim C8. Of two tasks of the projected list, the earlier one is completed only if the
  later one is. When both are completed or both are not, the earlier one is: under
  \<open>newest\<close>, created no earlier; under \<open>oldest\<close>, created no later; under
  \<open>due_date\<close>, without a due date only if the later one has none, and due no later
  when both have one; under \<open>priority\<close>, high if the later one is high, and low only
  if the later one is low.
\<close>

theorem sort_order:
  assumes "i < j" "j < length (filteredAndSortedTasks off now f sortBy ts)"
  shows
    "(completed (filteredAndSortedTasks off now f sortBy ts ! i) \<longrightarrow>
        completed (filteredAndSortedTasks off now f sortBy ts ! j)) \<and>
     (completed (filteredAndSortedTasks off now f sortBy ts ! i)
        = completed (filteredAndSortedTasks off now f sortBy ts ! j) \<longrightarrow>
        (sortBy = S_newest \<longrightarrow>
           created_at (filteredAndSortedTasks off now f sortBy ts ! i)
             \<ge> created_at (filteredAndSortedTasks off now f sortBy ts ! j)) \<and>
        (sortBy = S_oldest \<longrightarrow>
           created_at (filteredAndSortedTasks off now f sortBy ts ! i)
             \<le> created_at (filteredAndSortedTasks off now f sortBy ts ! j)) \<and>
        (sortBy = S_due_date \<longrightarrow>
           (due_date (filteredAndSortedTasks off now f sortBy ts ! i) = None \<longrightarrow>
              due_date (filteredAndSortedTasks off now f sortBy ts ! j) = None) \<and>
           (\<forall>x y. due_date (filteredAndSortedTasks off now f sortBy ts ! i) = Some x \<longrightarrow>
                  due_date (filteredAndSortedTasks off now f sortBy ts ! j) = Some y \<longrightarrow> x \<le> y)) \<and>
        (sortBy = S_priority \<longrightarrow>
           (priority (filteredAndSortedTasks off now f sortBy ts ! j) = High \<longrightarrow>
              priority (filteredAndSortedTasks off now f sortBy ts ! i) = High) \<and>
           (priority (filteredAndSortedTasks off now f sortBy ts ! i) = Low \<longrightarrow>
              priority (filteredAndSortedTasks off now f sortBy ts ! j) = Low)))"
proof -
  have "compareTasks sortBy (filteredAndSortedTasks off now f sortBy ts ! i)
          (filteredAndSortedTasks off now f sortBy ts ! j) \<le> 0"
    using sorted_view [of sortBy off now f ts] assms by (simp add: sorted_wrt_iff_nth_less)
  then show ?thesis by (rule compareTasks_le_meaning)
qed



lemma ex_view_newest:
  "filteredAndSortedTasks 0 5 ex_filters S_newest ex_tasks
     = [ex_tasks ! 3, ex_tasks ! 2, ex_tasks ! 1, ex_tasks ! 0]"
  by (simp add: filteredAndSortedTasks_def filterTasks_def ex_filters_def ex_tasks_def
      mk_task_def compareTasks_def)

lemma ex_view_oldest:
  "filteredAndSortedTasks 0 5 ex_filters S_oldest ex_tasks
     = [ex_tasks ! 1, ex_tasks ! 2, ex_tasks ! 3, ex_tasks ! 0]"
  by (simp add: filteredAndSortedTasks_def filterTasks_def ex_filters_def ex_tasks_def
      mk_task_def compareTasks_def)

lemma ex_view_due_date:
  "filteredAndSortedTasks 0 5 ex_filters S_due_date ex_tasks
     = [ex_tasks ! 3, ex_tasks ! 2, ex_tasks ! 1, ex_tasks ! 0]"
  by (simp add: filteredAndSortedTasks_def filterTasks_def ex_filters_def ex_tasks_def
      mk_task_def compareTasks_def)

lemma ex_view_priority:
  "filteredAndSortedTasks 0 5 ex_filters S_priority ex_tasks
     = [ex_tasks ! 2, ex_tasks ! 1, ex_tasks ! 3, ex_tasks ! 0]"
  by (simp add: filteredAndSortedTasks_def filterTasks_def ex_filters_def ex_tasks_def
      mk_task_def compareTasks_def)


lemma ex_task_fields:
  "completed (ex_tasks ! 0)" "\<not> completed (ex_tasks ! Suc 0)" "\<not> completed (ex_tasks ! 2)"
  "\<not> completed (ex_tasks ! 3)"
  "created_at (ex_tasks ! Suc 0) = 20" "created_at (ex_tasks ! 2) = 30" "created_at (ex_tasks ! 3) = 40"
  "due_date (ex_tasks ! Suc 0) = None" "due_date (ex_tasks ! 2) = Some 86400000"
  "due_date (ex_tasks ! 3) = Some 50"
  "priority (ex_tasks ! Suc 0) = Medium" "priority (ex_tasks ! 2) = High" "priority (ex_tasks ! 3) = Low"
  by (simp_all add: ex_tasks_def mk_task_def)

theorem sort_order_witness:
  "(0::nat) < 3 \<and> (3::nat) < length (filteredAndSortedTasks 0 5 ex_filters S_newest ex_tasks) \<and>
   \<not> completed (filteredAndSortedTasks 0 5 ex_filters S_newest ex_tasks ! 0) \<and>
   completed (filteredAndSortedTasks 0 5 ex_filters S_newest ex_tasks ! 3) \<and>
   created_at (filteredAndSortedTasks 0 5 ex_filters S_newest ex_tasks ! 0) = 40 \<and>
   created_at (filteredAndSortedTasks 0 5 ex_filters S_newest ex_tasks ! 1) = 30 \<and>
   created_at (filteredAndSortedTasks 0 5 ex_filters S_oldest ex_tasks ! 0) = 20 \<and>
   created_at (filteredAndSortedTasks 0 5 ex_filters S_oldest ex_tasks ! 1) = 30 \<and>
   due_date (filteredAndSortedTasks 0 5 ex_filters S_due_date ex_tasks ! 0) = Some 50 \<and>
   due_date (filteredAndSortedTasks 0 5 ex_filters S_due_date ex_tasks ! 1) = Some 86400000 \<and>
   due_date (filteredAndSortedTasks 0 5 ex_filters S_due_date ex_tasks ! 2) = None \<and>
   priority (filteredAndSortedTasks 0 5 ex_filters S_priority ex_tasks ! 0) = High \<and>
   priority (filteredAndSortedTasks 0 5 ex_filters S_priority ex_tasks ! 1) = Medium \<and>
   priority (filteredAndSortedTasks 0 5 ex_filters S_priority ex_tasks ! 2) = Low"
  using sort_order [of 0 3 0 5 ex_filters S_newest ex_tasks]
    sort_order [of 0 1 0 5 ex_filters S_newest ex_tasks]
    sort_order [of 0 1 0 5 ex_filters S_oldest ex_tasks]
    sort_order [of 0 1 0 5 ex_filters S_due_date ex_tasks]
    sort_order [of 1 2 0 5 ex_filters S_due_date ex_tasks]
    sort_order [of 0 1 0 5 ex_filters S_priority ex_tasks]
    sort_order [of 1 2 0 5 ex_filters S_priority ex_tasks]
  by (simp add: ex_view_newest ex_view_oldest ex_view_due_date ex_view_priority ex_task_fields)

end
